theory Spec2Isabelle
  imports Main "HOL-Library.Word"
begin

section \<open>JavaScript strings\<close>

text \<open>
  A JavaScript string is a sequence of UTF-16 code units. The handler only ever
  inspects code units (\<open>split\<close>, \<open>trim\<close>, \<open>startsWith\<close>, regular expressions without
  the \<open>u\<close> flag), so a string is modelled as a list of 16-bit words.
\<close>

type_synonym code_unit = "16 word"
type_synonym jsstring = "code_unit list"

text \<open>String literals of the source, written with the ASCII characters of HOL.\<close>

definition lit :: "string \<Rightarrow> jsstring" where
  "lit s = map of_char s"

definition newline :: code_unit where
  "newline = 0x0A"

text \<open>ECMAScript \<open>LineTerminator\<close>: LF, CR, LS, PS. The regex atom \<open>.\<close> matches
  every code unit except these.\<close>

definition isLineTerminator :: "code_unit \<Rightarrow> bool" where
  "isLineTerminator c = (c = 0x0A \<or> c = 0x0D \<or> c = 0x2028 \<or> c = 0x2029)"

text \<open>ECMAScript \<open>WhiteSpace\<close> together with \<open>LineTerminator\<close>: the code units that
  \<open>String.prototype.trim\<close> strips and that the regex class \<open>\s\<close> matches.\<close>

definition isWhiteSpace :: "code_unit \<Rightarrow> bool" where
  "isWhiteSpace c =
     (c = 0x09 \<or> c = 0x0A \<or> c = 0x0B \<or> c = 0x0C \<or> c = 0x0D \<or> c = 0x20 \<or> c = 0xA0
      \<or> c = 0x1680 \<or> (0x2000 \<le> c \<and> c \<le> 0x200A) \<or> c = 0x2028 \<or> c = 0x2029
      \<or> c = 0x202F \<or> c = 0x205F \<or> c = 0x3000 \<or> c = 0xFEFF)"

text \<open>The regex class \<open>\w\<close>: \<open>[A-Za-z0-9_]\<close>.\<close>

definition isWordChar :: "code_unit \<Rightarrow> bool" where
  "isWordChar c =
     ((0x41 \<le> c \<and> c \<le> 0x5A) \<or> (0x61 \<le> c \<and> c \<le> 0x7A) \<or> (0x30 \<le> c \<and> c \<le> 0x39) \<or> c = 0x5F)"

definition trim :: "jsstring \<Rightarrow> jsstring" where
  "trim s = rev (dropWhile isWhiteSpace (rev (dropWhile isWhiteSpace s)))"

definition startsWith :: "jsstring \<Rightarrow> jsstring \<Rightarrow> bool" where
  "startsWith s p = (take (length p) s = p)"

definition endsWith :: "jsstring \<Rightarrow> jsstring \<Rightarrow> bool" where
  "endsWith s p = (length p \<le> length s \<and> drop (length s - length p) s = p)"

text \<open>\<open>includes\<close> is only ever called with a one-character needle (\<open>'/'\<close> or \<open>' '\<close>).\<close>

definition includesChar :: "jsstring \<Rightarrow> code_unit \<Rightarrow> bool" where
  "includesChar s c = (c \<in> set s)"

definition slash :: code_unit where
  "slash = 0x2F"

definition space :: code_unit where
  "space = 0x20"

text \<open>\<open>toLowerCase\<close> and the case folding of the \<open>i\<close> flag, on the ASCII letters.
  \<open>toLowerCase\<close> is only applied to a language tag, which is a \<open>\w+\<close> capture or the
  literal \<open>'text'\<close>; under the \<open>i\<close> flag (without \<open>u\<close>) a code unit above 127 never
  folds to an ASCII letter, so the letters of \<open>File:\<close> and \<open>Path:\<close> only match their
  ASCII upper- and lower-case forms.\<close>

definition toLowerCaseUnit :: "code_unit \<Rightarrow> code_unit" where
  "toLowerCaseUnit c = (if 0x41 \<le> c \<and> c \<le> 0x5A then c + 0x20 else c)"

definition toLowerCase :: "jsstring \<Rightarrow> jsstring" where
  "toLowerCase s = map toLowerCaseUnit s"

text \<open>\<open>s.split('\n')\<close>: the pieces between newlines; never the empty array (so the
  first branch of the \<open>case\<close> is never taken, see \<open>split_newline_not_Nil\<close>).\<close>

fun split_newline :: "jsstring \<Rightarrow> jsstring list" where
  "split_newline [] = [[]]"
| "split_newline (c # cs) =
     (if c = newline then [] # split_newline cs
      else (case split_newline cs of [] \<Rightarrow> [[c]] | l # ls \<Rightarrow> (c # l) # ls))"

text \<open>\<open>lines.join('\n')\<close>.\<close>

fun join_newline :: "jsstring list \<Rightarrow> jsstring" where
  "join_newline [] = []"
| "join_newline [l] = l"
| "join_newline (l # m # ls) = l @ newline # join_newline (m # ls)"

text \<open>Template-literal rendering of a non-negative array length: its decimal digits.\<close>

fun decimal :: "nat \<Rightarrow> jsstring" where
  "decimal n = (if n < 10 then [0x30 + of_nat n] else decimal (n div 10) @ [0x30 + of_nat (n mod 10)])"

declare decimal.simps [simp del]

section \<open>Backtracking regular expressions as ordered lists of alternatives\<close>

text \<open>
  A JavaScript regular expression is matched by backtracking: every quantifier offers
  its alternatives in a fixed order (greedy: longest first; lazy: shortest first;
  \<open>?\<close>: with the group first, then without) and the first combination for which the
  rest of the pattern matches wins. Each piece of a pattern is modelled by the list of
  its alternatives in that order, and \<open>firstSome\<close> picks the first that succeeds.
\<close>

fun firstSome :: "('a \<Rightarrow> 'b option) \<Rightarrow> 'a list \<Rightarrow> 'b option" where
  "firstSome f [] = None"
| "firstSome f (x # xs) = (case f x of Some y \<Rightarrow> Some y | None \<Rightarrow> firstSome f xs)"

text \<open>\<open>\s*\<close> (greedy): the inputs left after consuming the whole run of white space,
  then one unit less, and so on down to nothing.\<close>

definition greedySpaces :: "jsstring \<Rightarrow> jsstring list" where
  "greedySpaces x = map (\<lambda>k. drop k x) (rev [0..<Suc (length (takeWhile isWhiteSpace x))])"

text \<open>\<open>(.+?)\<close> (lazy): the capture and the input left, for one unit, then two, and so
  on while no line terminator is met.\<close>

definition lazyDots :: "jsstring \<Rightarrow> (jsstring \<times> jsstring) list" where
  "lazyDots x =
     map (\<lambda>k. (take k x, drop k x)) [1..<Suc (length (takeWhile (\<lambda>c. \<not> isLineTerminator c) x))]"

text \<open>\<open>^(?:\/\/|#|\/\*)\<close>: the input left after the comment marker.\<close>

definition commentMarker :: "jsstring \<Rightarrow> jsstring option" where
  "commentMarker t =
     (if startsWith t (lit ''//'') then Some (drop 2 t)
      else if startsWith t (lit ''#'') then Some (drop 1 t)
      else if startsWith t (lit ''/*'') then Some (drop 2 t)
      else None)"

text \<open>\<open>(?:File:|Path:)?\<close> under the \<open>i\<close> flag: with the label first, then without.\<close>

definition optionalLabel :: "jsstring \<Rightarrow> jsstring list" where
  "optionalLabel x =
     (if toLowerCase (take 5 x) = lit ''file:'' \<or> toLowerCase (take 5 x) = lit ''path:''
      then [drop 5 x, x] else [x])"

text \<open>
  \<open>filePathPattern = /^(?:\/\/|#|\/\*)\s*(?:File:|Path:)?\s*(.+?)(?:\*\/)?$/i\<close>:
  the first capture group of the match, or \<open>None\<close> when the pattern does not match.
  After the capture, \<open>(?:\*\/)?$\<close> succeeds exactly when the input left is
  \<open>*/\<close> or empty.
\<close>

definition filePathPattern :: "jsstring \<Rightarrow> jsstring option" where
  "filePathPattern t =
     (case commentMarker t of
        None \<Rightarrow> None
      | Some r \<Rightarrow>
          firstSome (\<lambda>a.
            firstSome (\<lambda>b.
              firstSome (\<lambda>c.
                firstSome (\<lambda>(g, d). if d = lit ''*/'' \<or> d = [] then Some g else None)
                  (lazyDots c))
                (greedySpaces b))
              (optionalLabel a))
            (greedySpaces r))"

text \<open>\<open>/^\/\/\s*(.+)$/\<close> and \<open>/^#\s*(.+)$/\<close>: the greedy capture has to reach the end
  of the input, so it is the whole rest, which must be non-empty and free of line
  terminators.\<close>

definition restOfLine :: "jsstring \<Rightarrow> jsstring option" where
  "restOfLine r =
     firstSome (\<lambda>c. if c \<noteq> [] \<and> list_all (\<lambda>u. \<not> isLineTerminator u) c then Some c else None)
       (greedySpaces r)"

text \<open>\<open>/^\/\*\s*(.+?)\s*\*\/$/\<close>.\<close>

definition blockCommentBody :: "jsstring \<Rightarrow> jsstring option" where
  "blockCommentBody r =
     firstSome (\<lambda>c.
       firstSome (\<lambda>(g, d).
         firstSome (\<lambda>e. if e = lit ''*/'' then Some g else None) (greedySpaces d))
         (lazyDots c))
       (greedySpaces r)"

definition commentPatterns :: "(jsstring \<Rightarrow> jsstring option) list" where
  "commentPatterns =
     [\<lambda>t. if startsWith t (lit ''//'') then restOfLine (drop 2 t) else None,
      \<lambda>t. if startsWith t (lit ''#'') then restOfLine (drop 1 t) else None,
      \<lambda>t. if startsWith t (lit ''/*'') then blockCommentBody (drop 2 t) else None]"

text \<open>\<open>potential.match(/\.\w+$/)\<close>: a dot followed by one or more word characters up
  to the end. The dot is no word character, so the word characters are the longest
  such run at the end.\<close>

definition endsWithDotWord :: "jsstring \<Rightarrow> bool" where
  "endsWithDotWord p =
     (takeWhile isWordChar (rev p) \<noteq> [] \<and> startsWith (dropWhile isWordChar (rev p)) (lit ''.''))"

text \<open>\<open>/^```(\w+)?/\<close>: \<open>None\<close> when the line does not start with three backticks;
  otherwise the capture group, which is undefined (\<open>None\<close>) when no word character
  follows the backticks.\<close>

definition codeBlockStart :: "jsstring \<Rightarrow> jsstring option option" where
  "codeBlockStart line =
     (if startsWith line (lit ''```'')
      then (let w = takeWhile isWordChar (drop 3 line) in Some (if w = [] then None else Some w))
      else None)"

section \<open>The handler\<close>

text \<open>
  \<open>normalizeLanguage\<close> returns \<open>langMap[lang.toLowerCase()] || lang\<close>, where \<open>langMap\<close>
  is an object literal. Besides its own keys, the lookup sees the two inherited
  properties of \<open>Object.prototype\<close> whose names are lower-case words: \<open>constructor\<close>
  and \<open>__proto__\<close>. Both are objects, hence truthy, and are returned as they are.
\<close>

datatype language_value = LangString jsstring | ObjectConstructor | ObjectPrototype

record FileGeneration =
  path :: jsstring
  content :: jsstring
  language :: language_value
  purpose :: "jsstring option"
  patterns :: "jsstring list option"

datatype StreamingChunk =
    FileStart jsstring language_value
  | ContentChunk jsstring jsstring
  | FileComplete FileGeneration
  | Explanation jsstring
  | Done "FileGeneration list" jsstring

text \<open>The fields of the class; \<open>emitted\<close> is the sequence of events passed to
  \<open>this.emit\<close> so far.\<close>

record StreamingResponseHandler =
  buffer :: jsstring
  currentFile :: "FileGeneration option"
  files :: "FileGeneration list"
  explanation :: jsstring
  inCodeBlock :: bool
  codeBlockLanguage :: jsstring
  codeBlockBuffer :: jsstring
  emitted :: "StreamingChunk list"

definition initial :: StreamingResponseHandler where
  "initial = \<lparr>buffer = [], currentFile = None, files = [], explanation = [],
     inCodeBlock = False, codeBlockLanguage = [], codeBlockBuffer = [], emitted = []\<rparr>"

definition emit :: "StreamingChunk \<Rightarrow> StreamingResponseHandler \<Rightarrow> StreamingResponseHandler" where
  "emit ev h = h\<lparr>emitted := emitted h @ [ev]\<rparr>"

definition langMap :: "(jsstring \<times> jsstring) list" where
  "langMap =
     [(lit ''typescript'', lit ''typescript''), (lit ''ts'', lit ''typescript''),
      (lit ''tsx'', lit ''typescript''), (lit ''javascript'', lit ''javascript''),
      (lit ''js'', lit ''javascript''), (lit ''jsx'', lit ''javascript''),
      (lit ''json'', lit ''json''), (lit ''css'', lit ''css''), (lit ''scss'', lit ''scss''),
      (lit ''html'', lit ''html''), (lit ''markdown'', lit ''markdown''),
      (lit ''md'', lit ''markdown''), (lit ''prisma'', lit ''prisma''), (lit ''sql'', lit ''sql'')]"

definition normalizeLanguage :: "jsstring \<Rightarrow> language_value" where
  "normalizeLanguage lang =
     (case map_of langMap (toLowerCase lang) of
        Some l \<Rightarrow> LangString l
      | None \<Rightarrow>
          if toLowerCase lang = lit ''constructor'' then ObjectConstructor
          else if toLowerCase lang = lit ''__proto__'' then ObjectPrototype
          else LangString lang)"

definition isQuote :: "code_unit \<Rightarrow> bool" where
  "isQuote c = (c = 0x22 \<or> c = 0x27)"

text \<open>\<open>normalized.replace(/^["']|["']$/g, '')\<close>: one quote at the start is removed,
  then one quote at the end of what is left.\<close>

definition stripQuotes :: "jsstring \<Rightarrow> jsstring" where
  "stripQuotes s =
     (let s1 = (if s \<noteq> [] \<and> isQuote (hd s) then tl s else s)
      in if s1 \<noteq> [] \<and> isQuote (last s1) then butlast s1 else s1)"

definition normalizeFilePath :: "jsstring \<Rightarrow> jsstring" where
  "normalizeFilePath p =
     (let normalized = stripQuotes (trim p)
      in if \<not> startsWith normalized (lit ''src/'') \<and>
            \<not> startsWith normalized (lit ''public/'') \<and>
            \<not> startsWith normalized (lit ''prisma/'') \<and>
            \<not> startsWith normalized (lit ''tests/'') \<and>
            \<not> startsWith normalized (lit ''.'')
         then lit ''src/'' @ normalized
         else normalized)"

definition looksLikeFilePath :: "jsstring \<Rightarrow> bool" where
  "looksLikeFilePath line =
     (let trimmed = trim line
      in filePathPattern trimmed \<noteq> None \<or>
         includesChar trimmed slash \<or>
         endsWith trimmed (lit ''.ts'') \<or>
         endsWith trimmed (lit ''.tsx'') \<or>
         endsWith trimmed (lit ''.js'') \<or>
         endsWith trimmed (lit ''.jsx'') \<or>
         endsWith trimmed (lit ''.css'') \<or>
         endsWith trimmed (lit ''.json'') \<or>
         endsWith trimmed (lit ''.md''))"

definition extractFilePath :: "jsstring \<Rightarrow> jsstring option" where
  "extractFilePath line =
     (let trimmed = trim line
      in case filePathPattern trimmed of
           Some g \<Rightarrow> Some (trim g)
         | None \<Rightarrow>
             if includesChar trimmed slash \<and> \<not> includesChar trimmed space then Some trimmed
             else firstSome (\<lambda>pattern.
                    case pattern trimmed of
                      None \<Rightarrow> None
                    | Some g \<Rightarrow>
                        (let potential = trim g
                         in if includesChar potential slash \<or> endsWithDotWord potential
                            then Some potential else None))
                    commentPatterns)"

definition finalizeCurrentFile :: "StreamingResponseHandler \<Rightarrow> StreamingResponseHandler" where
  "finalizeCurrentFile h =
     (case currentFile h of
        None \<Rightarrow> h\<lparr>currentFile := None\<rparr>
      | Some cf \<Rightarrow>
          if path cf = [] \<or> content cf = [] then h\<lparr>currentFile := None\<rparr>
          else
            (let file = \<lparr>path = path cf, content = content cf,
                          language = (if language cf = LangString [] then LangString (lit ''text'')
                                      else language cf),
                          purpose = purpose cf, patterns = patterns cf\<rparr>
             in (emit (FileComplete file) (h\<lparr>files := files h @ [file]\<rparr>))\<lparr>currentFile := None\<rparr>))"

definition startNewFile :: "jsstring \<Rightarrow> jsstring \<Rightarrow> StreamingResponseHandler \<Rightarrow> StreamingResponseHandler" where
  "startNewFile p lang h =
     (let h1 = (case currentFile h of
                  None \<Rightarrow> h
                | Some cf \<Rightarrow> if path cf \<noteq> [] then finalizeCurrentFile h else h);
          cf' = \<lparr>path = normalizeFilePath p, content = [], language = normalizeLanguage lang,
                  purpose = None, patterns = None\<rparr>
      in emit (FileStart (path cf') (language cf')) (h1\<lparr>currentFile := Some cf'\<rparr>))"

definition finalizeCodeBlock :: "StreamingResponseHandler \<Rightarrow> StreamingResponseHandler" where
  "finalizeCodeBlock h =
     (case currentFile h of
        None \<Rightarrow> h\<lparr>codeBlockBuffer := []\<rparr>
      | Some cf \<Rightarrow>
          (finalizeCurrentFile (h\<lparr>currentFile := Some (cf\<lparr>content := trim (codeBlockBuffer h)\<rparr>)\<rparr>))
            \<lparr>codeBlockBuffer := []\<rparr>)"

text \<open>The part of \<open>processLine\<close> that accumulates a line of a code block.\<close>

definition addToCodeBuffer :: "jsstring \<Rightarrow> StreamingResponseHandler \<Rightarrow> StreamingResponseHandler" where
  "addToCodeBuffer line h =
     (let h1 = h\<lparr>codeBlockBuffer := codeBlockBuffer h @ line @ [newline]\<rparr>
      in case currentFile h1 of
           None \<Rightarrow> h1
         | Some cf \<Rightarrow> emit (ContentChunk (path cf) (line @ [newline])) h1)"

definition processLine :: "StreamingResponseHandler \<Rightarrow> jsstring \<Rightarrow> StreamingResponseHandler" where
  "processLine h line =
     (if codeBlockStart line \<noteq> None \<and> \<not> inCodeBlock h then
        h\<lparr>inCodeBlock := True,
          codeBlockLanguage := (case the (codeBlockStart line) of Some w \<Rightarrow> w | None \<Rightarrow> lit ''text''),
          codeBlockBuffer := []\<rparr>
      else if line = lit ''```'' \<and> inCodeBlock h then
        finalizeCodeBlock (h\<lparr>inCodeBlock := False\<rparr>)
      else if inCodeBlock h then
        (if codeBlockBuffer h = [] \<and> looksLikeFilePath line then
           (case extractFilePath line of
              None \<Rightarrow> addToCodeBuffer line h
            | Some filePath \<Rightarrow>
                if filePath \<noteq> [] then startNewFile filePath (codeBlockLanguage h) h
                else addToCodeBuffer line h)
         else addToCodeBuffer line h)
      else if trim line \<noteq> [] then
        emit (Explanation line) (h\<lparr>explanation := explanation h @ line @ [newline]\<rparr>)
      else h)"

definition processChunk :: "StreamingResponseHandler \<Rightarrow> jsstring \<Rightarrow> StreamingResponseHandler" where
  "processChunk h chunk =
     (let lines = split_newline (buffer h @ chunk)
      in foldl processLine (h\<lparr>buffer := last lines\<rparr>) (butlast lines))"

definition finalize :: "StreamingResponseHandler \<Rightarrow> StreamingResponseHandler" where
  "finalize h =
     (let h1 = (if trim (buffer h) \<noteq> [] then processLine h (buffer h) else h);
          h2 = (if inCodeBlock h1 \<and> codeBlockBuffer h1 \<noteq> [] then finalizeCodeBlock h1 else h1);
          h3 = (if currentFile h2 \<noteq> None then finalizeCurrentFile h2 else h2)
      in emit (Done (files h3) (trim (explanation h3))) h3)"

definition getFiles :: "StreamingResponseHandler \<Rightarrow> FileGeneration list" where
  "getFiles h = files h"

definition getExplanation :: "StreamingResponseHandler \<Rightarrow> jsstring" where
  "getExplanation h = trim (explanation h)"

text \<open>\<open>reset\<close> clears the fields and detaches the listeners; the events emitted before
  stay emitted.\<close>

definition reset :: "StreamingResponseHandler \<Rightarrow> StreamingResponseHandler" where
  "reset h = h\<lparr>buffer := [], currentFile := None, files := [], explanation := [],
     inCodeBlock := False, codeBlockLanguage := [], codeBlockBuffer := []\<rparr>"

definition parseCompleteResponse :: "jsstring \<Rightarrow> FileGeneration list \<times> jsstring" where
  "parseCompleteResponse text =
     (let handler = finalize (processChunk initial text)
      in (getFiles handler, getExplanation handler))"

section \<open>The non-streaming scan\<close>

text \<open>
  \<open>extractFilesFromMarkdown\<close> runs \<open>/```(\w+)?\n([\s\S]*?)```/g\<close> over the text with
  repeated \<open>exec\<close> calls. \<open>codeBlockRegexAt\<close> is one match attempt at the start of the
  input left: three backticks, the longest run of word characters (the only length after
  which a newline can follow), a newline, and the lazy body up to the next three
  backticks. It returns the first capture group, the second, and the input after the
  match.
\<close>

text \<open>\<open>([\s\S]*?)```\<close> (lazy): the capture runs up to the first triple backtick; the input
  left starts after it.\<close>

fun lazyUntilFence :: "jsstring \<Rightarrow> (jsstring \<times> jsstring) option" where
  "lazyUntilFence [] = None"
| "lazyUntilFence (c # cs) =
     (if startsWith (c # cs) (lit ''```'') then Some ([], drop 3 (c # cs))
      else (case lazyUntilFence cs of None \<Rightarrow> None | Some (body, rest) \<Rightarrow> Some (c # body, rest)))"

definition codeBlockRegexAt :: "jsstring \<Rightarrow> (jsstring option \<times> jsstring \<times> jsstring) option" where
  "codeBlockRegexAt s =
     (if startsWith s (lit ''```'') then
        (let w = takeWhile isWordChar (drop 3 s);
             r = drop (3 + length w) s
         in if startsWith r [newline] then
              (case lazyUntilFence (drop 1 r) of
                 None \<Rightarrow> None
               | Some (body, rest) \<Rightarrow> Some (if w = [] then None else Some w, body, rest))
            else None)
      else None)"

function codeBlockRegexMatches :: "jsstring \<Rightarrow> (jsstring option \<times> jsstring) list" where
  "codeBlockRegexMatches s =
     (case codeBlockRegexAt s of
        Some (tag, body, rest) \<Rightarrow> (tag, body) # codeBlockRegexMatches rest
      | None \<Rightarrow> (case s of [] \<Rightarrow> [] | c # cs \<Rightarrow> codeBlockRegexMatches cs))"
  by pat_completeness auto
termination
proof (relation "measure length")
  show "wf (measure length)" by simp
next
  fix s :: jsstring and x tag y body rest
  assume m: "codeBlockRegexAt s = Some x" and x: "(tag, y) = x" and y: "(body, rest) = y"
  have shorter: "lazyUntilFence t = Some (b, r) \<Longrightarrow> length r < length t" for t b r
    by (induction t arbitrary: b r) (auto split: if_splits option.splits)
  from m x y have "codeBlockRegexAt s = Some (tag, body, rest)" by simp
  then have "length rest < length s"
    by (auto simp add: codeBlockRegexAt_def Let_def split: if_splits option.splits
        dest!: shorter)
  then show "(rest, s) \<in> measure length" by simp
next
  fix s :: jsstring and c cs
  assume "s = c # cs"
  then show "(cs, s) \<in> measure length" by simp
qed

declare codeBlockRegexMatches.simps [simp del]

text \<open>The body of the \<open>while\<close> loop, for one match: \<open>fs\<close> is the array \<open>files\<close> so
  far. \<open>lines[0]\<close> exists because \<open>split\<close> never returns the empty array, and
  \<open>if (filePath)\<close> holds for a non-empty string.\<close>

definition pushCodeBlock :: "FileGeneration list \<Rightarrow> jsstring option \<times> jsstring \<Rightarrow> FileGeneration list" where
  "pushCodeBlock fs m =
     (let language = (case fst m of Some w \<Rightarrow> w | None \<Rightarrow> lit ''text'');
          content = snd m;
          lines = split_newline content;
          firstLine = trim (hd lines);
          filePath = extractFilePath firstLine
      in if filePath \<noteq> None \<and> filePath \<noteq> Some [] then
           fs @ [\<lparr>path = normalizeFilePath (the filePath),
                   content = trim (join_newline (tl lines)),
                   language = normalizeLanguage language,
                   purpose = None, patterns = None\<rparr>]
         else
           fs @ [\<lparr>path = lit ''unknown-'' @ decimal (length fs) @ lit ''.'' @ language,
                   content = trim content,
                   language = normalizeLanguage language,
                   purpose = None, patterns = None\<rparr>])"

definition extractFilesFromMarkdown :: "jsstring \<Rightarrow> FileGeneration list" where
  "extractFilesFromMarkdown markdown = foldl pushCodeBlock [] (codeBlockRegexMatches markdown)"

section \<open>Reachable states\<close>

text \<open>The states a handler object can be in: a fresh object, after any sequence of calls
  of its public methods that change state.\<close>

inductive reachable :: "StreamingResponseHandler \<Rightarrow> bool" where
  reachable_initial: "reachable initial"
| reachable_processChunk: "reachable h \<Longrightarrow> reachable (processChunk h chunk)"
| reachable_finalize: "reachable h \<Longrightarrow> reachable (finalize h)"
| reachable_reset: "reachable h \<Longrightarrow> reachable (reset h)"

definition trimmedContent :: "FileGeneration \<Rightarrow> bool" where
  "trimmedContent f = (content f \<noteq> [] \<and> trim (content f) = content f)"

definition emptyDraft :: "FileGeneration option \<Rightarrow> bool" where
  "emptyDraft d = (case d of None \<Rightarrow> True | Some cf \<Rightarrow> content cf = [] \<and> path cf \<noteq> [])"

definition handlerInvariant :: "StreamingResponseHandler \<Rightarrow> bool" where
  "handlerInvariant h =
     ((\<not> inCodeBlock h \<longrightarrow> currentFile h = None) \<and>
      emptyDraft (currentFile h) \<and>
      list_all trimmedContent (files h))"

text \<open>The condition under which \<open>processLine\<close> takes a line of a code block as the
  path comment: \<open>looksLikeFilePath\<close> holds and \<open>extractFilePath\<close> returns a truthy
  (non-empty) string.\<close>

definition recognisedPathLine :: "jsstring \<Rightarrow> bool" where
  "recognisedPathLine line =
     (looksLikeFilePath line \<and> extractFilePath line \<noteq> None \<and> extractFilePath line \<noteq> Some [])"

text \<open>A sequence of complete lines as it arrives on the stream: each line followed by
  a newline.\<close>

definition terminatedLines :: "jsstring list \<Rightarrow> jsstring" where
  "terminatedLines ls = concat (map (\<lambda>l. l @ [newline]) ls)"

section \<open>The specification's wording\<close>

text \<open>The fence-open line as the specification describes it: the triple backtick,
  optionally followed by one bare word, and nothing else.\<close>

definition spec_fence_open :: "jsstring \<Rightarrow> bool" where
  "spec_fence_open line = (startsWith line (lit ''```'') \<and> list_all isWordChar (drop 3 line))"

text \<open>A path-bearing first line as the specification describes it: after removing a
  leading comment marker and an optional \<open>File:\<close> or \<open>Path:\<close> label, the remaining
  trimmed text contains a path separator, or ends in a recognized file extension, or is a
  bare string with a path separator and no white space.\<close>

definition recognizedExtensions :: "jsstring list" where
  "recognizedExtensions =
     [lit ''.ts'', lit ''.tsx'', lit ''.js'', lit ''.jsx'', lit ''.css'', lit ''.json'', lit ''.md'']"

definition spec_strip_comment :: "jsstring \<Rightarrow> jsstring" where
  "spec_strip_comment line =
     (let t = trim line;
          r = trim (case commentMarker t of Some r \<Rightarrow> r | None \<Rightarrow> t);
          l = (if toLowerCase (take 5 r) = lit ''file:'' \<or> toLowerCase (take 5 r) = lit ''path:''
               then drop 5 r else r)
      in trim l)"

definition spec_path_bearing :: "jsstring \<Rightarrow> bool" where
  "spec_path_bearing line =
     (let rest = spec_strip_comment line
      in includesChar rest slash \<or>
         list_ex (endsWith rest) recognizedExtensions \<or>
         (includesChar rest slash \<and> \<not> list_ex isWhiteSpace rest))"

text \<open>Trimming as the specification describes it: leading and trailing blank lines are
  removed from the block, and nothing else.\<close>

definition isBlankLine :: "jsstring \<Rightarrow> bool" where
  "isBlankLine l = (trim l = [])"

definition spec_trim_blank_lines :: "jsstring \<Rightarrow> jsstring" where
  "spec_trim_blank_lines b =
     join_newline (rev (dropWhile isBlankLine (rev (dropWhile isBlankLine (split_newline b)))))"

section \<open>Example inputs\<close>

text \<open>The example scenario of the specification.\<close>

definition example_input :: jsstring where
  "example_input = lit ''Here is the plan.\<newline>\<newline>```typescript\<newline>// src/components/Button.tsx\<newline>export function Button() { return null }\<newline>```\<newline>\<newline>Done.''"

text \<open>A code block that opens with an ordinary comment.\<close>

definition ordinary_comment_input :: jsstring where
  "ordinary_comment_input = lit ''```typescript\<newline>// helper function\<newline>''"

text \<open>A code block whose first two lines both look like path comments.\<close>

definition two_path_lines_input :: jsstring where
  "two_path_lines_input =
     lit ''```typescript\<newline>// src/a.ts\<newline>// src/b.ts\<newline>const x = 1\<newline>```\<newline>''"

definition first_path_line_input :: jsstring where
  "first_path_line_input = lit ''```typescript\<newline>// src/a.ts\<newline>''"

text \<open>A closed block, a block with blank lines around an indented line (not yet
  closed), and a stream that stops in the middle of a line.\<close>

definition closed_block_input :: jsstring where
  "closed_block_input = lit ''```ts\<newline>// src/a.ts\<newline>const x = 1\<newline>```\<newline>''"

definition indented_block_input :: jsstring where
  "indented_block_input = lit ''```typescript\<newline>// src/a.ts\<newline>\<newline>  indented();\<newline>\<newline>''"

text \<open>A closed block followed by a block that is still open.\<close>

definition second_block_input :: jsstring where
  "second_block_input =
     lit ''```ts\<newline>// src/a.ts\<newline>const x = 1\<newline>```\<newline>```typescript\<newline>// src/b.ts\<newline>\<newline>  indented();\<newline>\<newline>''"

text \<open>Markdown with a block that names its file and a block that does not.\<close>

definition markdown_input :: jsstring where
  "markdown_input = lit ''Intro\<newline>```ts\<newline>// lib/a.ts\<newline>  const x = 1\<newline>```\<newline>Then:\<newline>```\<newline>console.log(1)\<newline>```\<newline>''"

text \<open>A closed block whose first line is an ordinary comment and whose second line is
  code.\<close>

definition helper_block_input :: jsstring where
  "helper_block_input =
     lit ''```typescript\<newline>// helper function\<newline>const x = 1\<newline>```\<newline>''"

text \<open>A shell block that opens with an ordinary shell comment.\<close>

definition shell_block_input :: jsstring where
  "shell_block_input =
     lit ''```bash\<newline># Install dependencies\<newline>npm install\<newline>```\<newline>''"

definition partial_stream_input :: jsstring where
  "partial_stream_input = lit ''Intro\<newline>```ts\<newline>// src/a.ts\<newline>con''"

section \<open>Chunk boundaries\<close>

lemma split_newline_not_Nil [simp]: "split_newline s \<noteq> []"
  by (cases s) (simp_all split: list.split)

lemma split_newline_append:
  "split_newline (a @ b) = butlast (split_newline a) @ split_newline (last (split_newline a) @ b)"
proof (induction a)
  case Nil
  show ?case by simp
next
  case (Cons c cs)
  show ?case
  proof (cases "c = newline")
    case True
    with Cons show ?thesis by simp
  next
    case False
    obtain l ls where sp: "split_newline cs = l # ls"
      by (cases "split_newline cs") simp_all
    show ?thesis
    proof (cases ls)
      case Nil
      with False sp Cons show ?thesis by simp
    next
      case (Cons m ms)
      with False sp Cons.IH show ?thesis by simp
    qed
  qed
qed

text \<open>\<open>processLine\<close> neither reads nor writes the carry-over \<open>buffer\<close>.\<close>

lemma finalizeCodeBlock_buffer:
  "finalizeCodeBlock (h\<lparr>buffer := b\<rparr>) = (finalizeCodeBlock h)\<lparr>buffer := b\<rparr>"
  by (cases h)
    (simp add: finalizeCodeBlock_def finalizeCurrentFile_def emit_def Let_def split: option.splits)

lemma startNewFile_buffer:
  "startNewFile p l (h\<lparr>buffer := b\<rparr>) = (startNewFile p l h)\<lparr>buffer := b\<rparr>"
  by (cases h)
    (simp add: startNewFile_def finalizeCurrentFile_def emit_def Let_def split: option.splits)

lemma addToCodeBuffer_buffer:
  "addToCodeBuffer l (h\<lparr>buffer := b\<rparr>) = (addToCodeBuffer l h)\<lparr>buffer := b\<rparr>"
  by (cases h) (simp add: addToCodeBuffer_def emit_def Let_def split: option.splits)

lemma swap_buffer_inCodeBlock:
  "h\<lparr>inCodeBlock := x, buffer := b\<rparr> = h\<lparr>buffer := b, inCodeBlock := x\<rparr>"
  by (cases h) simp

lemma processLine_buffer:
  "processLine (h\<lparr>buffer := b\<rparr>) l = (processLine h l)\<lparr>buffer := b\<rparr>"
  unfolding processLine_def
  by (simp add: finalizeCodeBlock_buffer [symmetric] startNewFile_buffer addToCodeBuffer_buffer
      swap_buffer_inCodeBlock emit_def split: option.split)

lemma foldl_processLine_buffer:
  "foldl processLine (h\<lparr>buffer := b\<rparr>) ls = (foldl processLine h ls)\<lparr>buffer := b\<rparr>"
  by (induction ls arbitrary: h) (simp_all add: processLine_buffer)

text \<open>Two calls of \<open>processChunk\<close> do what one call on the concatenation does.\<close>

lemma processChunk_append:
  "processChunk (processChunk h a) b = processChunk h (a @ b)"
proof -
  let ?A = "split_newline (buffer h @ a)"
  let ?B = "split_newline (last ?A @ b)"
  have sp: "split_newline (buffer h @ a @ b) = butlast ?A @ ?B"
    using split_newline_append [of "buffer h @ a" b] by simp
  have "processChunk h (a @ b) =
          foldl processLine (h\<lparr>buffer := last ?B\<rparr>) (butlast ?A @ butlast ?B)"
    by (simp add: processChunk_def Let_def sp butlast_append)
  also have "\<dots> =
          foldl processLine ((foldl processLine h (butlast ?A))\<lparr>buffer := last ?B\<rparr>) (butlast ?B)"
    by (simp add: foldl_processLine_buffer)
  also have "\<dots> = processChunk (processChunk h a) b"
    by (simp add: processChunk_def Let_def foldl_processLine_buffer)
  finally show ?thesis by simp
qed

lemma foldl_processChunk:
  "foldl processChunk (processChunk h a) fragments = processChunk h (a @ concat fragments)"
proof (induction fragments arbitrary: a)
  case Nil
  show ?case by simp
next
  case (Cons f fs)
  show ?case using Cons [of "a @ f"] by (simp add: processChunk_append)
qed

lemma processChunk_initial_empty: "processChunk initial [] = initial"
  by (simp add: processChunk_def initial_def)

lemma foldl_processChunk_initial:
  "foldl processChunk initial fragments = processChunk initial (concat fragments)"
  using foldl_processChunk [of initial "[]" fragments] by (simp add: processChunk_initial_empty)

section \<open>Trimming and the invariant of the handler\<close>

lemma emptyDraft_None [simp]: "emptyDraft None"
  by (simp add: emptyDraft_def)

lemma trim_decomposition:
  "\<exists>pre post. s = pre @ trim s @ post \<and> list_all isWhiteSpace pre \<and> list_all isWhiteSpace post"
proof -
  define d where "d = dropWhile isWhiteSpace s"
  have "rev (takeWhile isWhiteSpace (rev d) @ dropWhile isWhiteSpace (rev d)) = d"
    by simp
  then have "rev (dropWhile isWhiteSpace (rev d)) @ rev (takeWhile isWhiteSpace (rev d)) = d"
    by (simp only: rev_append)
  then have d: "d = trim s @ rev (takeWhile isWhiteSpace (rev d))"
    by (simp add: trim_def d_def)
  have "s = takeWhile isWhiteSpace s @ d" by (simp add: d_def)
  with d have "s = takeWhile isWhiteSpace s @ trim s @ rev (takeWhile isWhiteSpace (rev d))"
    by simp
  moreover have "list_all isWhiteSpace (takeWhile isWhiteSpace s)"
    by (auto simp add: list_all_iff dest: set_takeWhileD)
  moreover have "list_all isWhiteSpace (rev (takeWhile isWhiteSpace (rev d)))"
    by (auto simp add: list_all_iff dest: set_takeWhileD)
  ultimately show ?thesis by blast
qed

lemma trim_ends:
  assumes "trim s \<noteq> []"
  shows "\<not> isWhiteSpace (hd (trim s))" and "\<not> isWhiteSpace (last (trim s))"
proof -
  define d where "d = dropWhile isWhiteSpace s"
  define e where "e = dropWhile isWhiteSpace (rev d)"
  have t: "trim s = rev e" by (simp add: trim_def d_def e_def)
  from assms have e: "e \<noteq> []" by (simp add: t)
  have d: "d \<noteq> []"
  proof
    assume "d = []"
    then have "e = []" by (simp add: e_def)
    with e show False by simp
  qed
  have hd_d: "\<not> isWhiteSpace (hd d)" using d unfolding d_def by (rule hd_dropWhile)
  from e obtain x where "x \<in> set (rev d)" "\<not> isWhiteSpace x" by (auto simp add: e_def)
  then have "last e = last (rev d)" unfolding e_def by (rule dropWhile_last)
  then have "hd (trim s) = hd d" by (simp add: t hd_rev last_rev)
  with hd_d show "\<not> isWhiteSpace (hd (trim s))" by simp
  have "\<not> isWhiteSpace (hd e)" using e unfolding e_def by (rule hd_dropWhile)
  then show "\<not> isWhiteSpace (last (trim s))" by (simp add: t last_rev)
qed

lemma trim_fixed:
  assumes "x \<noteq> []" "\<not> isWhiteSpace (hd x)" "\<not> isWhiteSpace (last x)"
  shows "trim x = x"
proof -
  have "dropWhile isWhiteSpace x = x" using assms by (simp add: dropWhile_eq_self_iff)
  moreover have "dropWhile isWhiteSpace (rev x) = rev x"
    using assms by (simp add: dropWhile_eq_self_iff hd_rev)
  ultimately show ?thesis by (simp add: trim_def)
qed

lemma trim_Nil [simp]: "trim [] = []"
  by (simp add: trim_def)

lemma trim_trim [simp]: "trim (trim s) = trim s"
proof (cases "trim s = []")
  case True
  then show ?thesis by simp
next
  case False
  then show ?thesis by (simp add: trim_fixed trim_ends)
qed

lemma normalizeFilePath_not_Nil [simp]: "normalizeFilePath p \<noteq> []"
  by (auto simp add: normalizeFilePath_def Let_def startsWith_def lit_def)

lemma finalizeCurrentFile_fields [simp]:
  "currentFile (finalizeCurrentFile h) = None"
  "inCodeBlock (finalizeCurrentFile h) = inCodeBlock h"
  "explanation (finalizeCurrentFile h) = explanation h"
  "buffer (finalizeCurrentFile h) = buffer h"
  "codeBlockBuffer (finalizeCurrentFile h) = codeBlockBuffer h"
  "codeBlockLanguage (finalizeCurrentFile h) = codeBlockLanguage h"
  by (simp_all add: finalizeCurrentFile_def emit_def Let_def split: option.split)

lemma finalizeCurrentFile_files:
  "files (finalizeCurrentFile h) =
     (case currentFile h of
        None \<Rightarrow> files h
      | Some cf \<Rightarrow>
          if path cf = [] \<or> content cf = [] then files h
          else files h @ [\<lparr>path = path cf, content = content cf,
                 language = (if language cf = LangString [] then LangString (lit ''text'')
                             else language cf),
                 purpose = purpose cf, patterns = patterns cf\<rparr>])"
  by (simp add: finalizeCurrentFile_def emit_def Let_def split: option.split)

lemma finalizeCodeBlock_fields [simp]:
  "currentFile (finalizeCodeBlock h) = None"
  "inCodeBlock (finalizeCodeBlock h) = inCodeBlock h"
  "explanation (finalizeCodeBlock h) = explanation h"
  "buffer (finalizeCodeBlock h) = buffer h"
  "codeBlockBuffer (finalizeCodeBlock h) = []"
  "codeBlockLanguage (finalizeCodeBlock h) = codeBlockLanguage h"
  by (simp_all add: finalizeCodeBlock_def split: option.split)

lemma finalizeCodeBlock_files:
  "files (finalizeCodeBlock h) =
     (case currentFile h of
        None \<Rightarrow> files h
      | Some cf \<Rightarrow>
          if path cf = [] \<or> trim (codeBlockBuffer h) = [] then files h
          else files h @ [\<lparr>path = path cf, content = trim (codeBlockBuffer h),
                 language = (if language cf = LangString [] then LangString (lit ''text'')
                             else language cf),
                 purpose = purpose cf, patterns = patterns cf\<rparr>])"
  by (simp add: finalizeCodeBlock_def finalizeCurrentFile_files split: option.split)

lemma startNewFile_fields [simp]:
  "currentFile (startNewFile p l h) =
     Some \<lparr>path = normalizeFilePath p, content = [], language = normalizeLanguage l,
            purpose = None, patterns = None\<rparr>"
  "inCodeBlock (startNewFile p l h) = inCodeBlock h"
  "explanation (startNewFile p l h) = explanation h"
  "buffer (startNewFile p l h) = buffer h"
  "codeBlockBuffer (startNewFile p l h) = codeBlockBuffer h"
  "codeBlockLanguage (startNewFile p l h) = codeBlockLanguage h"
  by (simp_all add: startNewFile_def emit_def Let_def split: option.split)

lemma startNewFile_files:
  "emptyDraft (currentFile h) \<Longrightarrow> files (startNewFile p l h) = files h"
  by (auto simp add: startNewFile_def emit_def Let_def finalizeCurrentFile_files emptyDraft_def
      split: option.splits)

lemma addToCodeBuffer_fields [simp]:
  "currentFile (addToCodeBuffer l h) = currentFile h"
  "inCodeBlock (addToCodeBuffer l h) = inCodeBlock h"
  "explanation (addToCodeBuffer l h) = explanation h"
  "buffer (addToCodeBuffer l h) = buffer h"
  "files (addToCodeBuffer l h) = files h"
  "codeBlockBuffer (addToCodeBuffer l h) = codeBlockBuffer h @ l @ [newline]"
  "codeBlockLanguage (addToCodeBuffer l h) = codeBlockLanguage h"
  by (simp_all add: addToCodeBuffer_def emit_def Let_def split: option.split)

lemma emit_fields [simp]:
  "currentFile (emit ev h) = currentFile h"
  "inCodeBlock (emit ev h) = inCodeBlock h"
  "explanation (emit ev h) = explanation h"
  "buffer (emit ev h) = buffer h"
  "files (emit ev h) = files h"
  "codeBlockBuffer (emit ev h) = codeBlockBuffer h"
  "codeBlockLanguage (emit ev h) = codeBlockLanguage h"
  "emitted (emit ev h) = emitted h @ [ev]"
  by (simp_all add: emit_def)

lemma handlerInvariant_finalizeCodeBlock:
  "handlerInvariant h \<Longrightarrow> handlerInvariant (finalizeCodeBlock h)"
  by (simp add: handlerInvariant_def finalizeCodeBlock_files emptyDraft_def trimmedContent_def
      split: option.split)

lemma handlerInvariant_finalizeCurrentFile:
  "handlerInvariant h \<Longrightarrow> handlerInvariant (finalizeCurrentFile h)"
  by (auto simp add: handlerInvariant_def finalizeCurrentFile_files emptyDraft_def
      split: option.splits)

lemma handlerInvariant_startNewFile:
  "handlerInvariant h \<Longrightarrow> inCodeBlock h \<Longrightarrow> handlerInvariant (startNewFile p l h)"
  by (simp add: handlerInvariant_def startNewFile_files emptyDraft_def)

lemma handlerInvariant_addToCodeBuffer:
  "handlerInvariant h \<Longrightarrow> handlerInvariant (addToCodeBuffer l h)"
  by (simp add: handlerInvariant_def)

lemma handlerInvariant_processLine:
  assumes "handlerInvariant h"
  shows "handlerInvariant (processLine h line)"
proof (cases "inCodeBlock h")
  case False
  with assms have "handlerInvariant
      (h\<lparr>inCodeBlock := True, codeBlockLanguage := l, codeBlockBuffer := []\<rparr>)" for l
    by (simp add: handlerInvariant_def emptyDraft_def)
  moreover from False assms have "handlerInvariant
      (emit (Explanation line) (h\<lparr>explanation := explanation h @ line @ [newline]\<rparr>))"
    by (simp add: handlerInvariant_def)
  ultimately show ?thesis
    using False assms by (simp add: processLine_def)
next
  case True
  have "handlerInvariant (finalizeCodeBlock (h\<lparr>inCodeBlock := False\<rparr>))"
    using assms
    by (simp add: handlerInvariant_def finalizeCodeBlock_files emptyDraft_def trimmedContent_def
        split: option.split)
  then show ?thesis
    using True assms
    by (simp add: processLine_def handlerInvariant_startNewFile handlerInvariant_addToCodeBuffer
        split: option.split)
qed

lemma handlerInvariant_foldl_processLine:
  "handlerInvariant h \<Longrightarrow> handlerInvariant (foldl processLine h ls)"
  by (induction ls arbitrary: h) (simp_all add: handlerInvariant_processLine)

lemma handlerInvariant_buffer [simp]:
  "handlerInvariant (h\<lparr>buffer := b\<rparr>) = handlerInvariant h"
  by (simp add: handlerInvariant_def)

lemma handlerInvariant_processChunk:
  "handlerInvariant h \<Longrightarrow> handlerInvariant (processChunk h chunk)"
  by (simp add: processChunk_def Let_def handlerInvariant_foldl_processLine)

lemma handlerInvariant_emit [simp]:
  "handlerInvariant (emit ev h) = handlerInvariant h"
  by (simp add: handlerInvariant_def)

lemma handlerInvariant_finalize:
  "handlerInvariant h \<Longrightarrow> handlerInvariant (finalize h)"
  by (simp add: finalize_def Let_def handlerInvariant_processLine
      handlerInvariant_finalizeCodeBlock handlerInvariant_finalizeCurrentFile)

lemma handlerInvariant_initial: "handlerInvariant initial"
  by (simp add: handlerInvariant_def initial_def emptyDraft_def)

lemma handlerInvariant_reset: "handlerInvariant (reset h)"
  by (simp add: handlerInvariant_def reset_def emptyDraft_def)

lemma reachable_handlerInvariant: "reachable h \<Longrightarrow> handlerInvariant h"
  by (induction rule: reachable.induct)
    (simp_all add: handlerInvariant_initial handlerInvariant_processChunk
      handlerInvariant_finalize handlerInvariant_reset)

lemma trimmedContent_ends:
  assumes "trimmedContent f"
  shows "content f \<noteq> [] \<and> \<not> isWhiteSpace (hd (content f)) \<and> \<not> isWhiteSpace (last (content f))"
proof -
  from assms have c: "content f \<noteq> []" and e: "trim (content f) = content f"
    by (simp_all add: trimmedContent_def)
  from c e have n: "trim (content f) \<noteq> []" by simp
  from trim_ends [OF n] e c show ?thesis by simp
qed

section \<open>The carry-over buffer\<close>

lemma split_newline_pieces: "l \<in> set (split_newline s) \<Longrightarrow> newline \<notin> set l"
proof (induction s arbitrary: l)
  case Nil
  then show ?case by simp
next
  case (Cons c cs)
  obtain m ms where sp: "split_newline cs = m # ms"
    by (cases "split_newline cs") simp_all
  with Cons show ?case by (auto split: if_splits)
qed

lemma split_newline_no_newline: "newline \<notin> set s \<Longrightarrow> split_newline s = [s]"
  by (induction s) auto

lemma buffer_processLine [simp]: "buffer (processLine h l) = buffer h"
proof -
  have "processLine (h\<lparr>buffer := buffer h\<rparr>) l = (processLine h l)\<lparr>buffer := buffer h\<rparr>"
    by (rule processLine_buffer)
  then have "processLine h l = (processLine h l)\<lparr>buffer := buffer h\<rparr>" by simp
  then have "buffer (processLine h l) = buffer ((processLine h l)\<lparr>buffer := buffer h\<rparr>)" by simp
  then show ?thesis by simp
qed

lemma buffer_foldl_processLine [simp]: "buffer (foldl processLine h ls) = buffer h"
  by (induction ls arbitrary: h) simp_all

lemma buffer_processChunk: "buffer (processChunk h c) = last (split_newline (buffer h @ c))"
  by (simp add: processChunk_def Let_def)

lemma buffer_finalize [simp]: "buffer (finalize h) = buffer h"
  by (simp add: finalize_def Let_def)

lemma reachable_buffer: "reachable h \<Longrightarrow> newline \<notin> set (buffer h)"
proof (induction rule: reachable.induct)
  case reachable_initial
  show ?case by (simp add: initial_def)
next
  case (reachable_processChunk h chunk)
  have "last (split_newline (buffer h @ chunk)) \<in> set (split_newline (buffer h @ chunk))"
    by simp
  then have "newline \<notin> set (last (split_newline (buffer h @ chunk)))"
    by (rule split_newline_pieces)
  then show ?case by (simp add: buffer_processChunk)
next
  case (reachable_finalize h)
  then show ?case by simp
next
  case (reachable_reset h)
  show ?case by (simp add: reset_def)
qed

section \<open>Blocks without a path line\<close>

lemma split_newline_line:
  "newline \<notin> set l \<Longrightarrow> split_newline (l @ newline # r) = l # split_newline r"
  by (induction l) auto

lemma split_newline_terminatedLines:
  "\<forall>l\<in>set ls. newline \<notin> set l \<Longrightarrow> newline \<notin> set p \<Longrightarrow>
   split_newline (terminatedLines ls @ p) = ls @ [p]"
proof (induction ls)
  case Nil
  then show ?case by (simp add: terminatedLines_def split_newline_no_newline)
next
  case (Cons l ls)
  then have "split_newline (terminatedLines ls @ p) = ls @ [p]" by simp
  moreover have "terminatedLines (l # ls) @ p = l @ newline # (terminatedLines ls @ p)"
    by (simp add: terminatedLines_def)
  ultimately show ?case using Cons.prems by (simp add: split_newline_line)
qed

lemma processChunk_terminatedLines:
  assumes "buffer h = []" and "\<forall>l\<in>set ls. newline \<notin> set l" and "newline \<notin> set p"
  shows "processChunk h (terminatedLines ls @ p) = (foldl processLine h ls)\<lparr>buffer := p\<rparr>"
  using assms
  by (simp add: processChunk_def split_newline_terminatedLines foldl_processLine_buffer)

lemma foldl_processChunk_concat:
  assumes "newline \<notin> set (buffer h)"
  shows "foldl processChunk h fragments = processChunk h (concat fragments)"
proof -
  from assms have "processChunk h [] = h"
    by (simp add: processChunk_def split_newline_no_newline)
  with foldl_processChunk [of h "[]" fragments] show ?thesis by simp
qed

lemma processLine_unattributed:
  assumes "inCodeBlock s" and "currentFile s = None" and "l \<noteq> lit ''```''"
    and "codeBlockBuffer s \<noteq> [] \<or> \<not> recognisedPathLine l"
  shows "processLine s l = s\<lparr>codeBlockBuffer := codeBlockBuffer s @ l @ [newline]\<rparr>"
proof -
  have a: "addToCodeBuffer l s = s\<lparr>codeBlockBuffer := codeBlockBuffer s @ l @ [newline]\<rparr>"
    using assms(2) by (simp add: addToCodeBuffer_def)
  show ?thesis
    using assms a
    by (auto simp add: processLine_def recognisedPathLine_def split: option.splits)
qed

lemma foldl_processLine_unattributed:
  assumes "inCodeBlock s" and "currentFile s = None" and "codeBlockBuffer s \<noteq> []"
    and "\<forall>l\<in>set ls. l \<noteq> lit ''```''"
  shows "foldl processLine s ls = s\<lparr>codeBlockBuffer := codeBlockBuffer s @ terminatedLines ls\<rparr>"
  using assms
proof (induction ls arbitrary: s)
  case Nil
  then show ?case by (simp add: terminatedLines_def)
next
  case (Cons l ls)
  let ?s = "s\<lparr>codeBlockBuffer := codeBlockBuffer s @ l @ [newline]\<rparr>"
  from Cons.prems have step: "processLine s l = ?s"
    by (simp add: processLine_unattributed)
  have "foldl processLine ?s ls = ?s\<lparr>codeBlockBuffer := codeBlockBuffer ?s @ terminatedLines ls\<rparr>"
    using Cons.prems by (intro Cons.IH) simp_all
  with step show ?case by (simp add: terminatedLines_def)
qed

text \<open>The state after the opening line and the lines of a block whose first line is
  not taken as a path.\<close>

lemma unattributed_block_state:
  assumes "\<not> inCodeBlock h" and "currentFile h = None"
    and "startsWith opener (lit ''```'')"
    and "\<forall>l\<in>set (first # rest). l \<noteq> lit ''```''"
    and "\<not> recognisedPathLine first"
  shows "\<exists>tag. foldl processLine h (opener # first # rest) =
           h\<lparr>inCodeBlock := True, codeBlockLanguage := tag,
             codeBlockBuffer := terminatedLines (first # rest)\<rparr>"
proof -
  define tag where "tag = (if takeWhile isWordChar (drop 3 opener) = [] then lit ''text''
                   else takeWhile isWordChar (drop 3 opener))"
  define s0 where "s0 = h\<lparr>inCodeBlock := True, codeBlockLanguage := tag, codeBlockBuffer := []\<rparr>"
  have o: "processLine h opener = s0"
    using assms(1,3) by (simp add: processLine_def codeBlockStart_def Let_def s0_def tag_def)
  have f: "processLine s0 first = s0\<lparr>codeBlockBuffer := first @ [newline]\<rparr>"
    using assms(2,4,5) processLine_unattributed [of s0 first] by (simp add: s0_def)
  have r: "foldl processLine (s0\<lparr>codeBlockBuffer := first @ [newline]\<rparr>) rest =
        s0\<lparr>codeBlockBuffer := first @ [newline]\<rparr>\<lparr>codeBlockBuffer := (first @ [newline]) @ terminatedLines rest\<rparr>"
    using assms(2,4)
      foldl_processLine_unattributed [of "s0\<lparr>codeBlockBuffer := first @ [newline]\<rparr>" rest]
    by (simp add: s0_def)
  from o f r have "foldl processLine h (opener # first # rest) =
      h\<lparr>inCodeBlock := True, codeBlockLanguage := tag,
        codeBlockBuffer := terminatedLines (first # rest)\<rparr>"
    by (simp add: s0_def terminatedLines_def)
  then show ?thesis by blast
qed

lemma finalizeCodeBlock_no_draft:
  "currentFile s = None \<Longrightarrow> finalizeCodeBlock s = s\<lparr>codeBlockBuffer := []\<rparr>"
  by (simp add: finalizeCodeBlock_def)

lemma processLine_close_no_draft:
  assumes "inCodeBlock s" and "currentFile s = None"
  shows "processLine s (lit ''```'') = s\<lparr>inCodeBlock := False, codeBlockBuffer := []\<rparr>"
  using assms by (simp add: processLine_def finalizeCodeBlock_no_draft)

lemma finalize_no_draft:
  assumes "inCodeBlock s" and "currentFile s = None" and "codeBlockBuffer s \<noteq> []"
  shows "files (finalize s) = files s \<and> explanation (finalize s) = explanation s \<and>
         emitted (finalize s) = emitted s @ [Done (files s) (trim (explanation s))]"
proof -
  define s1 where "s1 = (if trim (buffer s) \<noteq> [] then processLine s (buffer s) else s)"
  have s1: "currentFile s1 = None \<and> files s1 = files s \<and> explanation s1 = explanation s \<and>
            emitted s1 = emitted s"
  proof (cases "buffer s = lit ''```''")
    case True
    with assms show ?thesis by (simp add: s1_def processLine_close_no_draft)
  next
    case False
    with assms show ?thesis by (simp add: s1_def processLine_unattributed)
  qed
  define s2 where "s2 = (if inCodeBlock s1 \<and> codeBlockBuffer s1 \<noteq> [] then finalizeCodeBlock s1 else s1)"
  from s1 have s2: "currentFile s2 = None \<and> files s2 = files s \<and> explanation s2 = explanation s \<and>
            emitted s2 = emitted s"
    by (simp add: s2_def finalizeCodeBlock_no_draft)
  have "finalize s =
      (let s3 = (if currentFile s2 \<noteq> None then finalizeCurrentFile s2 else s2)
       in emit (Done (files s3) (trim (explanation s3))) s3)"
    unfolding finalize_def s2_def s1_def Let_def by (rule refl)
  with s2 show ?thesis by simp
qed

section \<open>The scan: one artifact for each match\<close>

text \<open>Each turn of the \<open>while\<close> loop pushes exactly one artifact, so the result has as
  many artifacts as the regular expression has matches.\<close>

lemma length_pushCodeBlock: "length (pushCodeBlock fs m) = Suc (length fs)"
  by (simp add: pushCodeBlock_def Let_def)

lemma length_foldl_pushCodeBlock:
  "length (foldl pushCodeBlock acc blocks) = length acc + length blocks"
  by (induction blocks arbitrary: acc) (simp_all add: length_pushCodeBlock)

lemma length_extractFilesFromMarkdown:
  "length (extractFilesFromMarkdown markdown) = length (codeBlockRegexMatches markdown)"
  by (simp add: extractFilesFromMarkdown_def length_foldl_pushCodeBlock)

text \<open>The scan on an example: the second block has no path line and gets the placeholder
  path with the counter 1.\<close>

lemma extractFilesFromMarkdown_example:
  "extractFilesFromMarkdown markdown_input =
     [\<lparr>path = lit ''src/lib/a.ts'', content = lit ''const x = 1'',
       language = LangString (lit ''typescript''), purpose = None, patterns = None\<rparr>,
      \<lparr>path = lit ''unknown-1.text'', content = lit ''console.log(1)'',
       language = LangString (lit ''text''), purpose = None, patterns = None\<rparr>]"
  by code_simp

section \<open>The claims\<close>

text \<open>
  Claim C1 (chunk-boundary invariance). For every list of fragments, whatever their
  lengths (empty and one-character fragments included), a fresh handler fed the
  fragments in order by \<open>processChunk\<close> and then finalized holds the same artifacts
  and the same explanation as \<open>parseCompleteResponse\<close> returns for the concatenation
  of the fragments.
\<close>

theorem chunk_boundary_invariance:
  "(getFiles (finalize (foldl processChunk initial fragments)),
    getExplanation (finalize (foldl processChunk initial fragments)))
     = parseCompleteResponse (concat fragments)"
  by (simp add: foldl_processChunk_initial parseCompleteResponse_def Let_def)

text \<open>
  Claim C2 (example scenario), as amended. Parsing the example input yields exactly one
  artifact, with path \<open>src/components/Button.tsx\<close>, language \<open>typescript\<close> and content
  \<open>export function Button() { return null }\<close>, and the explanation
  \<open>Here is the plan.\nDone.\<close>: blank lines outside a code block are skipped by the
  guard \<open>if (line.trim())\<close>, so the two prose lines are separated by one newline.
\<close>

theorem example_scenario:
  "parseCompleteResponse example_input =
     ([\<lparr>path = lit ''src/components/Button.tsx'',
        content = lit ''export function Button() { return null }'',
        language = LangString (lit ''typescript''), purpose = None, patterns = None\<rparr>],
      lit ''Here is the plan.\<newline>Done.'')"
  by code_simp

text \<open>The explanation is not the one the claim states, with a blank line kept between
  the two prose lines.\<close>

theorem example_scenario_explanation_counterexample:
  "snd (parseCompleteResponse example_input) \<noteq> lit ''Here is the plan.\<newline>\<newline>Done.''"
  by code_simp

text \<open>
  Claim C3 (path-detection criteria) fails on the code. A first line of a block that is
  an ordinary comment, with no path separator and no file extension, is taken as a path
  comment: \<open>filePathPattern\<close> matches every comment line with some text after the
  marker. After the lines \<open>```typescript\<close> and \<open>// helper function\<close> the handler holds
  a draft with the path \<open>src/helper function\<close>, and the comment line is not in the block
  buffer, although the line meets none of the criteria of the specification.
\<close>

theorem ordinary_comment_opens_draft:
  "\<not> spec_path_bearing (lit ''// helper function'') \<and>
   currentFile (processChunk initial ordinary_comment_input) =
     Some \<lparr>path = lit ''src/helper function'', content = [],
            language = LangString (lit ''typescript''), purpose = None, patterns = None\<rparr> \<and>
   codeBlockBuffer (processChunk initial ordinary_comment_input) = []"
  by code_simp

text \<open>
  Claim C4 (path-detection scope) fails on the code. The test for "first line" is that
  the block buffer is empty, and a recognized path line is not added to the buffer, so
  the line after a path line is tested again. With \<open>// src/a.ts\<close> followed by
  \<open>// src/b.ts\<close>, the first line opens the draft \<open>src/a.ts\<close> and the second line
  replaces it by the draft \<open>src/b.ts\<close> without reaching the block buffer: the only
  artifact is \<open>src/b.ts\<close>, and the second comment line is not part of its content.
\<close>

theorem second_path_line_replaces_draft:
  "map_option path (currentFile (processChunk initial first_path_line_input)) = Some (lit ''src/a.ts'') \<and>
   map_option path (currentFile (processChunk (processChunk initial first_path_line_input)
       (lit ''// src/b.ts\<newline>''))) = Some (lit ''src/b.ts'') \<and>
   codeBlockBuffer (processChunk (processChunk initial first_path_line_input)
       (lit ''// src/b.ts\<newline>'')) = [] \<and>
   parseCompleteResponse two_path_lines_input =
     ([\<lparr>path = lit ''src/b.ts'', content = lit ''const x = 1'',
        language = LangString (lit ''typescript''), purpose = None, patterns = None\<rparr>], [])"
  by code_simp

text \<open>
  Claim C5 (fence-open recognition), as amended. Outside a code block, a line puts the
  handler into a code block if and only if the line starts with three backticks,
  whatever follows them. In that case the language is the longest run of word
  characters right after the backticks, or \<open>text\<close> when there is none, the block buffer
  is reset, and nothing else changes: no event is emitted.
\<close>

theorem fence_open_recognition:
  assumes "\<not> inCodeBlock h"
  shows "inCodeBlock (processLine h line) = startsWith line (lit ''```'') \<and>
         (startsWith line (lit ''```'') \<longrightarrow>
            processLine h line =
              h\<lparr>inCodeBlock := True,
                codeBlockLanguage :=
                  (if takeWhile isWordChar (drop 3 line) = [] then lit ''text''
                   else takeWhile isWordChar (drop 3 line)),
                codeBlockBuffer := []\<rparr>)"
  using assms by (simp add: processLine_def codeBlockStart_def Let_def)

theorem fence_open_recognition_witness:
  "\<not> inCodeBlock initial \<and> startsWith (lit ''```js title'') (lit ''```'') \<and>
   processLine initial (lit ''```js title'') =
     initial\<lparr>inCodeBlock := True, codeBlockLanguage := lit ''js'', codeBlockBuffer := []\<rparr>"
proof -
  have h: "\<not> inCodeBlock initial" by (simp add: initial_def)
  have s: "startsWith (lit ''```js title'') (lit ''```'')" by code_simp
  have w: "takeWhile isWordChar (drop 3 (lit ''```js title'')) = lit ''js''" by code_simp
  have l: "lit ''js'' \<noteq> []" by code_simp
  from fence_open_recognition [OF h, of "lit ''```js title''"] s w l h show ?thesis by simp
qed

text \<open>The line \<open>```js title\<close> opens a code block although more than one bare word
  follows the backticks.\<close>

theorem fence_open_counterexample:
  "inCodeBlock (processLine initial (lit ''```js title'')) \<and> \<not> spec_fence_open (lit ''```js title'')"
  by code_simp

text \<open>
  Claim C6 (finalized content trimming), as amended. When a block is finalized with a
  draft open, the content of the artifact is the block buffer with all leading and
  trailing white space removed (\<open>String.prototype.trim\<close>), and nothing else removed: the
  buffer is the content between two runs of white space, and the content neither starts
  nor ends with white space. No artifact is added when the path or that content is
  empty. In every reachable state the content of every artifact is non-empty and neither
  starts nor ends with white space: leading and trailing blank lines are gone, and so is
  the indentation of the first line and the white space at the end of the last line.
\<close>

theorem finalized_content_is_trimmed_buffer:
  assumes "currentFile h = Some cf"
  shows "map content (files (finalizeCodeBlock h)) =
           map content (files h) @
             (if path cf = [] \<or> trim (codeBlockBuffer h) = [] then []
              else [trim (codeBlockBuffer h)]) \<and>
         (\<exists>pre post. codeBlockBuffer h = pre @ trim (codeBlockBuffer h) @ post \<and>
            list_all isWhiteSpace pre \<and> list_all isWhiteSpace post) \<and>
         (trim (codeBlockBuffer h) \<noteq> [] \<longrightarrow>
            \<not> isWhiteSpace (hd (trim (codeBlockBuffer h))) \<and>
            \<not> isWhiteSpace (last (trim (codeBlockBuffer h)))) \<and>
         (reachable h \<longrightarrow>
            list_all (\<lambda>c. c \<noteq> [] \<and> \<not> isWhiteSpace (hd c) \<and> \<not> isWhiteSpace (last c))
              (map content (files h)))"
proof -
  have 1: "map content (files (finalizeCodeBlock h)) =
           map content (files h) @
             (if path cf = [] \<or> trim (codeBlockBuffer h) = [] then []
              else [trim (codeBlockBuffer h)])"
    using assms by (simp add: finalizeCodeBlock_files)
  have 3: "trim (codeBlockBuffer h) \<noteq> [] \<longrightarrow>
            \<not> isWhiteSpace (hd (trim (codeBlockBuffer h))) \<and>
            \<not> isWhiteSpace (last (trim (codeBlockBuffer h)))"
    by (simp add: trim_ends)
  have 4: "reachable h \<longrightarrow>
            list_all (\<lambda>c. c \<noteq> [] \<and> \<not> isWhiteSpace (hd c) \<and> \<not> isWhiteSpace (last c))
              (map content (files h))"
  proof
    assume "reachable h"
    then have "list_all trimmedContent (files h)"
      using reachable_handlerInvariant [of h] by (simp add: handlerInvariant_def)
    then show "list_all (\<lambda>c. c \<noteq> [] \<and> \<not> isWhiteSpace (hd c) \<and> \<not> isWhiteSpace (last c))
              (map content (files h))"
      by (simp add: list_all_iff trimmedContent_ends)
  qed
  from 1 trim_decomposition [of "codeBlockBuffer h"] 3 4 show ?thesis by blast
qed

theorem finalized_content_is_trimmed_buffer_witness:
  "reachable (processChunk initial second_block_input) \<and>
   currentFile (processChunk initial second_block_input) =
     Some \<lparr>path = lit ''src/b.ts'', content = [], language = LangString (lit ''typescript''),
            purpose = None, patterns = None\<rparr> \<and>
   map content (files (processChunk initial second_block_input)) = [lit ''const x = 1''] \<and>
   map content (files (finalizeCodeBlock (processChunk initial second_block_input))) =
     [lit ''const x = 1'', lit ''indented();'']"
proof -
  have r: "reachable (processChunk initial second_block_input)"
    by (intro reachable.intros)
  have c: "currentFile (processChunk initial second_block_input) =
     Some \<lparr>path = lit ''src/b.ts'', content = [], language = LangString (lit ''typescript''),
            purpose = None, patterns = None\<rparr>" by code_simp
  have f: "map content (files (processChunk initial second_block_input)) = [lit ''const x = 1'']"
    by code_simp
  have t: "trim (codeBlockBuffer (processChunk initial second_block_input)) = lit ''indented();''"
    by code_simp
  have l: "lit ''indented();'' \<noteq> []" "lit ''src/b.ts'' \<noteq> []" by code_simp+
  from finalized_content_is_trimmed_buffer [OF c] f t l r c show ?thesis by simp
qed

text \<open>A block with the line \<open>  indented();\<close> between blank lines: the content is
  \<open>indented();\<close>, not the buffer without its blank lines, which keeps the
  indentation.\<close>

theorem trimming_counterexample:
  "map content (files (processLine (processChunk initial indented_block_input) (lit ''```'')))
     \<noteq> [spec_trim_blank_lines (codeBlockBuffer (processChunk initial indented_block_input))]"
  by code_simp

text \<open>
  What the code does with a block whose first line \<open>processLine\<close> itself does not take as
  a path (\<open>recognisedPathLine\<close> is the code's own test, not the criteria of the
  specification). Take a handler in a reachable state, outside a code block and at the
  start of a line, and feed it, in fragments cut anywhere, an opening fence line and the
  lines of such a block, none of them the closing fence. Then, when the closing fence
  arrives, the artifacts, the explanation and the events emitted are what they were
  before the block, and the handler is outside a code block with no draft. When instead
  the stream ends in the block, possibly with an unterminated last line, \<open>finalize\<close>
  leaves the artifacts and the explanation as they were before the block and emits only
  the \<open>done\<close> event.
\<close>

lemma unrecognised_block_dropped:
  assumes "reachable h" and "\<not> inCodeBlock h" and "buffer h = []"
    and "startsWith opener (lit ''```'')"
    and "list_all (\<lambda>l. newline \<notin> set l) (opener # first # rest)"
    and "list_all (\<lambda>l. l \<noteq> lit ''```'') (first # rest)"
    and "\<not> recognisedPathLine first"
    and "concat fragments = terminatedLines (opener # first # rest)"
    and "newline \<notin> set partial"
  shows "(let closed = processChunk (foldl processChunk h fragments) (lit ''```\<newline>'')
          in files closed = files h \<and> explanation closed = explanation h \<and>
             emitted closed = emitted h \<and> \<not> inCodeBlock closed \<and> currentFile closed = None) \<and>
         (let ended = finalize (processChunk (foldl processChunk h fragments) partial)
          in files ended = files h \<and> explanation ended = explanation h \<and>
             emitted ended = emitted h @ [Done (files h) (trim (explanation h))])"
proof -
  from assms(1,2) have nodraft: "currentFile h = None"
    using reachable_handlerInvariant [of h] by (simp add: handlerInvariant_def)
  from assms(5) have nl: "\<forall>l\<in>set (opener # first # rest). newline \<notin> set l"
    by (simp add: list_all_iff)
  from assms(6) have nf: "\<forall>l\<in>set (first # rest). l \<noteq> lit ''```''"
    by (simp add: list_all_iff)
  obtain tag where block: "foldl processLine h (opener # first # rest) =
       h\<lparr>inCodeBlock := True, codeBlockLanguage := tag,
         codeBlockBuffer := terminatedLines (first # rest)\<rparr>"
    using unattributed_block_state [OF assms(2) nodraft assms(4) nf assms(7)] by blast
  define s where "s = h\<lparr>inCodeBlock := True, codeBlockLanguage := tag,
         codeBlockBuffer := terminatedLines (first # rest)\<rparr>"
  have "foldl processChunk h fragments = processChunk h (terminatedLines (opener # first # rest) @ [])"
    using assms(3,8) by (simp add: foldl_processChunk_concat)
  also have "\<dots> = (foldl processLine h (opener # first # rest))\<lparr>buffer := []\<rparr>"
    using assms(3) nl by (intro processChunk_terminatedLines) simp_all
  also have "\<dots> = s" unfolding block s_def using assms(3) by (cases h) simp
  finally have fed: "foldl processChunk h fragments = s" .
  have s: "inCodeBlock s" "currentFile s = None" "codeBlockBuffer s \<noteq> []" "buffer s = []"
    "files s = files h" "explanation s = explanation h" "emitted s = emitted h"
    using nodraft assms(3) by (simp_all add: s_def terminatedLines_def)
  have "lit ''```\<newline>'' = terminatedLines [lit ''```''] @ []"
    by (simp add: terminatedLines_def lit_def newline_def)
  moreover have "processChunk s (terminatedLines [lit ''```''] @ []) =
      (foldl processLine s [lit ''```''])\<lparr>buffer := []\<rparr>"
    using s(4) by (intro processChunk_terminatedLines) (simp_all add: lit_def newline_def)
  ultimately have closed: "processChunk s (lit ''```\<newline>'') =
      s\<lparr>inCodeBlock := False, codeBlockBuffer := [], buffer := []\<rparr>"
    using s(1,2) by (simp add: processLine_close_no_draft)
  have "processChunk s partial = s\<lparr>buffer := partial\<rparr>"
    using s(4) assms(9) by (simp add: processChunk_def split_newline_no_newline)
  moreover have "files (finalize (s\<lparr>buffer := partial\<rparr>)) = files (s\<lparr>buffer := partial\<rparr>) \<and>
      explanation (finalize (s\<lparr>buffer := partial\<rparr>)) = explanation (s\<lparr>buffer := partial\<rparr>) \<and>
      emitted (finalize (s\<lparr>buffer := partial\<rparr>)) =
        emitted (s\<lparr>buffer := partial\<rparr>) @
          [Done (files (s\<lparr>buffer := partial\<rparr>)) (trim (explanation (s\<lparr>buffer := partial\<rparr>)))]"
    using s(1,2,3) by (intro finalize_no_draft) simp_all
  ultimately have ended: "files (finalize (processChunk s partial)) = files h \<and>
      explanation (finalize (processChunk s partial)) = explanation h \<and>
      emitted (finalize (processChunk s partial)) = emitted h @ [Done (files h) (trim (explanation h))]"
    using s(5,6,7) by simp
  from closed ended s show ?thesis by (simp add: fed Let_def)
qed

text \<open>
  Claim C7 (a block without a path is dropped on the streaming path) fails on the code.
  The first line \<open>// helper function\<close> meets none of the path criteria of the
  specification, so the block is to contribute no artifact. The code takes the comment
  as a path, as under claim C3, and the block is not dropped: the parse returns the
  artifact \<open>src/helper function\<close> with the second line as its content.
\<close>

theorem ordinary_comment_block_not_dropped:
  "\<not> spec_path_bearing (lit ''// helper function'') \<and>
   parseCompleteResponse helper_block_input =
     ([\<lparr>path = lit ''src/helper function'', content = lit ''const x = 1'',
        language = LangString (lit ''typescript''), purpose = None, patterns = None\<rparr>], [])"
  by code_simp

text \<open>
  Claim C8 (\<open>extractFilesFromMarkdown\<close> never drops a block) fails on the code in its
  second half. The scan finds the one block of the input, and the result has one
  artifact for it. The first line \<open># Install dependencies\<close> meets none of the path
  criteria of the specification, so the block has no extractable path and is to get the
  placeholder path \<open>unknown-0.bash\<close> with the whole block as content. The code takes
  the comment as a path, as under claim C3: the artifact has the path
  \<open>src/Install dependencies\<close>, and the comment line is missing from its content.
\<close>

theorem ordinary_comment_block_gets_no_placeholder:
  "\<not> spec_path_bearing (lit ''# Install dependencies'') \<and>
   codeBlockRegexMatches shell_block_input =
     [(Some (lit ''bash''), lit ''# Install dependencies\<newline>npm install\<newline>'')] \<and>
   extractFilesFromMarkdown shell_block_input =
     [\<lparr>path = lit ''src/Install dependencies'', content = lit ''npm install'',
       language = LangString (lit ''bash''), purpose = None, patterns = None\<rparr>]"
  by code_simp

text \<open>
  Claim C9 (state invariant). In every reachable state, the draft \<open>currentFile\<close> is
  \<open>None\<close> whenever the handler is outside a code block.
\<close>

theorem draft_only_inside_code_block:
  assumes "reachable h" and "\<not> inCodeBlock h"
  shows "currentFile h = None"
  using assms reachable_handlerInvariant [of h] by (simp add: handlerInvariant_def)

theorem draft_only_inside_code_block_witness:
  "reachable (processChunk initial closed_block_input) \<and>
   \<not> inCodeBlock (processChunk initial closed_block_input) \<and>
   currentFile (processChunk initial closed_block_input) = None"
proof -
  have r: "reachable (processChunk initial closed_block_input)"
    by (intro reachable.intros)
  have n: "\<not> inCodeBlock (processChunk initial closed_block_input)" by code_simp
  from r n draft_only_inside_code_block [OF r n] show ?thesis by simp
qed

text \<open>
  Claim C10 (frame property of newline-free chunks). In every reachable state,
  \<open>processChunk\<close> with a chunk that holds no newline appends the chunk to the carry-over
  buffer and changes no other field; in particular no event is emitted.
\<close>

theorem newline_free_chunk_frame:
  assumes "reachable h" and "newline \<notin> set chunk"
  shows "processChunk h chunk = h\<lparr>buffer := buffer h @ chunk\<rparr>"
proof -
  from assms have "newline \<notin> set (buffer h @ chunk)" by (simp add: reachable_buffer)
  then have "split_newline (buffer h @ chunk) = [buffer h @ chunk]"
    by (rule split_newline_no_newline)
  then show ?thesis by (simp add: processChunk_def)
qed

theorem newline_free_chunk_frame_witness:
  "reachable (processChunk initial partial_stream_input) \<and>
   newline \<notin> set (lit ''st x'') \<and>
   processChunk (processChunk initial partial_stream_input) (lit ''st x'') =
     (processChunk initial partial_stream_input)
       \<lparr>buffer := buffer (processChunk initial partial_stream_input) @ lit ''st x''\<rparr>"
proof -
  have r: "reachable (processChunk initial partial_stream_input)"
    by (intro reachable.intros)
  have n: "newline \<notin> set (lit ''st x'')" by code_simp
  from r n newline_free_chunk_frame [OF r n] show ?thesis by simp
qed

end
